theory Spec2Isabelle
  imports Main "HOL-Library.Word" "HOL-Library.Monad_Syntax" "HOL-Library.Sublist"
begin

unbundle bit_operations_syntax

section \<open>The tracepoint probe of src/bpf/monitor.c\<close>

text \<open>
  The program is one eBPF tracepoint probe, \<^verbatim>\<open>trace_tcp_drop\<close>, one record type,
  \<^verbatim>\<open>struct event\<close>, and one map, the ring buffer \<^verbatim>\<open>events\<close>. The probe calls
  three kernel helpers. The helpers are kernel code, not code of the program: they are
  modelled here as operations on an explicit kernel state, closely enough to tell a
  reserved record from a submitted one, to account for the space a record takes, and to
  log every helper call in the order it is made.
\<close>

subsection \<open>Machine types\<close>

type_synonym u8 = "8 word"
type_synonym u32 = "32 word"
type_synonym u64 = "64 word"

text \<open>
  The byte order of the machine. An eBPF object is compiled for the byte order of the
  host (\<^verbatim>\<open>bpfel\<close> or \<^verbatim>\<open>bpfeb\<close>), so every store and load below takes it from
  the kernel state.
\<close>

datatype endian = LittleEndian | BigEndian

fun u32_bytes :: "endian \<Rightarrow> u32 \<Rightarrow> u8 list" where
  "u32_bytes LittleEndian v =
     [ucast v, ucast (drop_bit 8 v), ucast (drop_bit 16 v), ucast (drop_bit 24 v)]"
| "u32_bytes BigEndian v =
     [ucast (drop_bit 24 v), ucast (drop_bit 16 v), ucast (drop_bit 8 v), ucast v]"

fun u32_of_bytes :: "endian \<Rightarrow> u8 list \<Rightarrow> u32 option" where
  "u32_of_bytes LittleEndian [b0, b1, b2, b3] =
     Some (ucast b0 OR push_bit 8 (ucast b1) OR push_bit 16 (ucast b2) OR push_bit 24 (ucast b3))"
| "u32_of_bytes BigEndian [b0, b1, b2, b3] =
     Some (ucast b3 OR push_bit 8 (ucast b2) OR push_bit 16 (ucast b1) OR push_bit 24 (ucast b0))"
| "u32_of_bytes _ _ = None"

text \<open>
  Byte memory of one object. A store or a load outside the object is a fault
  (\<open>None\<close>): the eBPF verifier refuses a program that could make one.
\<close>

definition store_bytes :: "nat \<Rightarrow> u8 list \<Rightarrow> u8 list \<Rightarrow> u8 list option" where
  "store_bytes off bs mem =
     (if off + length bs \<le> length mem
      then Some (take off mem @ bs @ drop (off + length bs) mem)
      else None)"

definition load_bytes :: "nat \<Rightarrow> nat \<Rightarrow> u8 list \<Rightarrow> u8 list option" where
  "load_bytes off n mem =
     (if off + n \<le> length mem then Some (take n (drop off mem)) else None)"

subsection \<open>\<^verbatim>\<open>struct event\<close> and its layout\<close>

text \<open>
  \<^verbatim>\<open>struct event { u32 pid; u32 reason; };\<close>
  The tracepoint context \<^verbatim>\<open>struct trace_event_raw_kfree_skb\<close> comes from
  \<^verbatim>\<open>vmlinux.h\<close>, which is generated from the running kernel; the probe reads only its
  field \<^verbatim>\<open>reason\<close>, an \<^verbatim>\<open>enum skb_drop_reason\<close>, which is an unsigned 32-bit
  value (the specification's data model says the same of the reason code).
\<close>

record trace_event_raw_kfree_skb =
  reason :: u32

record event =
  pid :: u32
  reason :: u32

text \<open>
  The layout of a C struct under the natural-alignment rule that the eBPF target, like
  every Linux ABI, follows: each member is placed at the next offset that is a multiple
  of its alignment, and the size of the struct is rounded up to its largest alignment.
  Padding is whatever this leaves between and after the members.
\<close>

datatype ctype = U8 | U16 | U32 | U64

fun ctype_size :: "ctype \<Rightarrow> nat" where
  "ctype_size U8 = 1"
| "ctype_size U16 = 2"
| "ctype_size U32 = 4"
| "ctype_size U64 = 8"

definition ctype_align :: "ctype \<Rightarrow> nat" where
  "ctype_align t = ctype_size t"

definition round_up :: "nat \<Rightarrow> nat \<Rightarrow> nat" where
  "round_up n a = ((n + a - 1) div a) * a"

type_synonym struct_decl = "(string \<times> ctype) list"

fun struct_offsets :: "nat \<Rightarrow> struct_decl \<Rightarrow> (string \<times> nat) list" where
  "struct_offsets off [] = []"
| "struct_offsets off ((n, t) # fs) =
     (let p = round_up off (ctype_align t) in (n, p) # struct_offsets (p + ctype_size t) fs)"

fun struct_end :: "nat \<Rightarrow> struct_decl \<Rightarrow> nat" where
  "struct_end off [] = off"
| "struct_end off ((n, t) # fs) =
     struct_end (round_up off (ctype_align t) + ctype_size t) fs"

definition struct_align :: "struct_decl \<Rightarrow> nat" where
  "struct_align fs = fold max (map (ctype_align \<circ> snd) fs) 1"

definition sizeof_struct :: "struct_decl \<Rightarrow> nat" where
  "sizeof_struct fs = round_up (struct_end 0 fs) (struct_align fs)"

definition offsetof :: "struct_decl \<Rightarrow> string \<Rightarrow> nat" where
  "offsetof fs n = (case map_of (struct_offsets 0 fs) n of Some p \<Rightarrow> p | None \<Rightarrow> 0)"

definition struct_padding :: "struct_decl \<Rightarrow> nat" where
  "struct_padding fs = sizeof_struct fs - sum_list (map (ctype_size \<circ> snd) fs)"

definition struct_event :: struct_decl where
  "struct_event = [(''pid'', U32), (''reason'', U32)]"

definition sizeof_event :: nat where
  "sizeof_event = sizeof_struct struct_event"

text \<open>Reading a \<^verbatim>\<open>struct event\<close> through a pointer: each member at its offset.\<close>

definition read_event :: "endian \<Rightarrow> u8 list \<Rightarrow> event option" where
  "read_event bo mem =
     do {
       pb \<leftarrow> load_bytes (offsetof struct_event ''pid'') (ctype_size U32) mem;
       p \<leftarrow> u32_of_bytes bo pb;
       rb \<leftarrow> load_bytes (offsetof struct_event ''reason'') (ctype_size U32) mem;
       r \<leftarrow> u32_of_bytes bo rb;
       Some \<lparr>pid = p, reason = r\<rparr>
     }"

subsection \<open>The map \<^verbatim>\<open>events\<close>\<close>

text \<open>
  \<^verbatim>\<open>__uint(type, BPF_MAP_TYPE_RINGBUF); __uint(max_entries, 1 << 16);\<close>
  A record of the ring buffer is a header and its data; \<open>busy\<close> is the header's busy
  bit, set by a reservation and cleared by the submit. \<open>records\<close> holds the records
  between the consumer's and the producer's position, oldest first.
\<close>

text \<open>\<^verbatim>\<open>1 << 16\<close>, the shift computed on 32 bits as C does.\<close>

definition events_max_entries :: nat where
  "events_max_entries = unat (push_bit 16 (1 :: u32))"

record rb_record =
  busy :: bool
  data :: "u8 list"

record ringbuf =
  max_entries :: nat
  records :: "rb_record list"

definition events_map :: ringbuf where
  "events_map = \<lparr>max_entries = events_max_entries, records = []\<rparr>"

text \<open>The kernel's \<^verbatim>\<open>is_power_of_2\<close>, which it applies to the size of a ring buffer.\<close>

definition is_power_of_2 :: "nat \<Rightarrow> bool" where
  "is_power_of_2 n = (n \<noteq> 0 \<and> n AND (n - 1) = 0)"

text \<open>
  Space: a record takes its data and a header of \<^verbatim>\<open>BPF_RINGBUF_HDR_SZ\<close> = 8 bytes,
  rounded up to a multiple of 8.
\<close>

definition BPF_RINGBUF_HDR_SZ :: nat where
  "BPF_RINGBUF_HDR_SZ = 8"

definition rb_record_len :: "nat \<Rightarrow> nat" where
  "rb_record_len sz = round_up (sz + BPF_RINGBUF_HDR_SZ) 8"

definition rb_used :: "ringbuf \<Rightarrow> nat" where
  "rb_used rb = sum_list (map (\<lambda>r. rb_record_len (length (data r))) (records rb))"

subsection \<open>Kernel state and helpers\<close>

type_synonym ptr = nat

datatype helper_call =
    Call_ringbuf_reserve nat u64 "ptr option"
  | Call_get_current_pid_tgid
  | Call_ringbuf_submit ptr u64
  | Call_ringbuf_discard ptr u64

text \<open>
  \<open>current_pid_tgid\<close> is the combined identifier of the current task (tgid in the high
  32 bits, pid in the low 32 bits). \<open>stale\<close> is what the memory of the ring buffer
  holds before a record is written: a reservation does not clear it. \<open>calls\<close> is the
  log of helper calls, oldest first. A pointer to a record is its index in \<open>records\<close>.
\<close>

record kernel =
  byte_order :: endian
  current_pid_tgid :: u64
  events :: ringbuf
  stale :: "nat \<Rightarrow> u8"
  calls :: "helper_call list"

text \<open>
  \<^verbatim>\<open>bpf_ringbuf_reserve(&events, sz, flags)\<close>: NULL when \<open>flags\<close> is not 0 or when
  the producer position would get more than \<open>max_entries - 1\<close> ahead of the consumer
  position (the buffer is full); otherwise a pointer to a new record, busy, of \<open>sz\<close>
  bytes. The probe treats every NULL alike, so the properties of one invocation below
  are stated on the outcome of the reservation.
\<close>

definition bpf_ringbuf_reserve :: "nat \<Rightarrow> u64 \<Rightarrow> kernel \<Rightarrow> ptr option \<times> kernel" where
  "bpf_ringbuf_reserve sz flags k =
     (let rb = events k in
      if flags \<noteq> 0
      then (None, k\<lparr>calls := calls k @ [Call_ringbuf_reserve sz flags None]\<rparr>)
      else if rb_used rb + rb_record_len sz > max_entries rb - 1
      then (None, k\<lparr>calls := calls k @ [Call_ringbuf_reserve sz flags None]\<rparr>)
      else
        let e = length (records rb);
            r = \<lparr>busy = True, data = map (stale k) [0..<sz]\<rparr>
        in (Some e,
            k\<lparr>events := rb\<lparr>records := records rb @ [r]\<rparr>,
              calls := calls k @ [Call_ringbuf_reserve sz flags (Some e)]\<rparr>))"

definition bpf_get_current_pid_tgid :: "kernel \<Rightarrow> u64 \<times> kernel" where
  "bpf_get_current_pid_tgid k =
     (current_pid_tgid k, k\<lparr>calls := calls k @ [Call_get_current_pid_tgid]\<rparr>)"

text \<open>
  \<^verbatim>\<open>bpf_ringbuf_submit(e, flags)\<close> clears the busy bit of the record. Submitting
  anything but a reserved, still busy record is a fault.
\<close>

definition bpf_ringbuf_submit :: "ptr \<Rightarrow> u64 \<Rightarrow> kernel \<Rightarrow> kernel option" where
  "bpf_ringbuf_submit e flags k =
     (let rb = events k in
      if e < length (records rb) \<and> busy (records rb ! e)
      then Some (k\<lparr>events := rb\<lparr>records := (records rb)[e := (records rb ! e)\<lparr>busy := False\<rparr>]\<rparr>,
                   calls := calls k @ [Call_ringbuf_submit e flags]\<rparr>)
      else None)"

text \<open>
  A store of a \<^verbatim>\<open>u32\<close> through a pointer to a reserved record, at a byte offset:
  \<^verbatim>\<open>e->pid = ...\<close>, \<^verbatim>\<open>e->reason = ...\<close>. The pointer is valid only while the
  record is busy.
\<close>

definition store_u32 :: "ptr \<Rightarrow> nat \<Rightarrow> u32 \<Rightarrow> kernel \<Rightarrow> kernel option" where
  "store_u32 e off v k =
     (let rb = events k in
      if e < length (records rb) \<and> busy (records rb ! e)
      then
        (case store_bytes off (u32_bytes (byte_order k) v) (data (records rb ! e)) of
           None \<Rightarrow> None
         | Some d \<Rightarrow>
             Some (k\<lparr>events := rb\<lparr>records := (records rb)[e := (records rb ! e)\<lparr>data := d\<rparr>]\<rparr>\<rparr>))
      else None)"

subsection \<open>The probe\<close>

text \<open>
  \<^verbatim>\<open>
  int trace_tcp_drop(struct trace_event_raw_kfree_skb *ctx){
      if (ctx->reason <= 1) return 0;
      struct event *e = bpf_ringbuf_reserve(&events, sizeof(*e), 0);
      if (!e) return 0;
      e->pid = bpf_get_current_pid_tgid() >> 32;
      e->reason = ctx->reason;
      bpf_ringbuf_submit(e, 0);
      return 0;
  }
  \<close>
  The result is the returned \<^verbatim>\<open>int\<close> and the kernel state after the call, or
  \<open>None\<close> for a fault.
\<close>

definition trace_tcp_drop :: "trace_event_raw_kfree_skb \<Rightarrow> kernel \<Rightarrow> (int \<times> kernel) option" where
  "trace_tcp_drop ctx k =
     (if trace_event_raw_kfree_skb.reason ctx \<le> 1 then Some (0, k)
      else
        case bpf_ringbuf_reserve sizeof_event 0 k of
          (None, k1) \<Rightarrow> Some (0, k1)
        | (Some e, k1) \<Rightarrow>
            (case bpf_get_current_pid_tgid k1 of
               (pt, k2) \<Rightarrow>
                 do {
                   k3 \<leftarrow> store_u32 e (offsetof struct_event ''pid'') (ucast (drop_bit 32 pt)) k2;
                   k4 \<leftarrow> store_u32 e (offsetof struct_event ''reason'')
                           (trace_event_raw_kfree_skb.reason ctx) k3;
                   k5 \<leftarrow> bpf_ringbuf_submit e 0 k4;
                   Some (0, k5)
                 }))"

subsection \<open>Runs of the probe, and what the consumer can read\<close>

text \<open>
  The kernel fires the tracepoint once for every freed packet, each time with its own
  context and with the task that is current at that moment. A run is a list of such
  invocations, oldest first, with no consumer step in between.
\<close>

fun run_probes :: "(trace_event_raw_kfree_skb \<times> u64) list \<Rightarrow> kernel \<Rightarrow> kernel option" where
  "run_probes [] k = Some k"
| "run_probes ((ctx, pt) # invs) k =
     (case trace_tcp_drop ctx (k\<lparr>current_pid_tgid := pt\<rparr>) of
        None \<Rightarrow> None
      | Some (ret, k') \<Rightarrow> run_probes invs k')"

text \<open>The kernel state right after the program is loaded: the map is empty.\<close>

definition loaded :: "endian \<Rightarrow> (nat \<Rightarrow> u8) \<Rightarrow> kernel" where
  "loaded bo g =
     \<lparr>byte_order = bo, current_pid_tgid = 0, events = events_map, stale = g, calls = []\<rparr>"

text \<open>
  The consumer reads the records in order and stops at the first one whose busy bit is
  still set: \<open>consumable\<close> is the data of the records it can read.
\<close>

definition consumable :: "kernel \<Rightarrow> u8 list list" where
  "consumable k = map data (takeWhile (\<lambda>r. \<not> busy r) (records (events k)))"

definition all_submitted :: "kernel \<Rightarrow> bool" where
  "all_submitted k = list_all (\<lambda>r. \<not> busy r) (records (events k))"

text \<open>The data of a record holds an event with a reason above 1.\<close>

definition reports_drop :: "endian \<Rightarrow> u8 list \<Rightarrow> bool" where
  "reports_drop bo d =
     (case read_event bo d of None \<Rightarrow> False | Some ev \<Rightarrow> 1 < event.reason ev)"

subsection \<open>The event codec of the consumer\<close>

datatype codec_error = MalformedRecord

text \<open>
  Modelled from the spec: \<^verbatim>\<open>encode(Event) -> bytes\<close> of the Event Codec (section 4.3),
  which is not in the source: two consecutive 32-bit unsigned integers, \<open>pid\<close> then
  \<open>reason\<close>, native byte order, no padding.
\<close>

definition encode :: "endian \<Rightarrow> event \<Rightarrow> u8 list" where
  "encode bo ev = u32_bytes bo (pid ev) @ u32_bytes bo (event.reason ev)"

text \<open>
  Modelled from the spec: \<^verbatim>\<open>decode(bytes) -> Event | error\<close> of the Event Codec
  (section 4.3), which is not in the source (the userspace consumer is not part of it):
  it fails with \<open>MalformedRecord\<close> if the input length is not 8 bytes, and otherwise
  reads the two integers back.
\<close>

definition decode :: "endian \<Rightarrow> u8 list \<Rightarrow> codec_error + event" where
  "decode bo bs =
     (if length bs \<noteq> 8 then Inl MalformedRecord
      else
        case (u32_of_bytes bo (take 4 bs), u32_of_bytes bo (drop 4 bs)) of
          (Some p, Some r) \<Rightarrow> Inr \<lparr>pid = p, reason = r\<rparr>
        | _ \<Rightarrow> Inl MalformedRecord)"

section \<open>Properties\<close>

subsection \<open>Layout and byte order\<close>

lemma sizeof_event_8: "sizeof_event = 8"
  by (simp add: sizeof_event_def sizeof_struct_def struct_event_def struct_align_def
      ctype_align_def round_up_def)

lemma offsetof_pid: "offsetof struct_event ''pid'' = 0"
  by (simp add: offsetof_def struct_event_def ctype_align_def round_up_def)

lemma offsetof_reason: "offsetof struct_event ''reason'' = 4"
  by (simp add: offsetof_def struct_event_def ctype_align_def round_up_def)

lemma rb_record_len_8: "rb_record_len 8 = 16"
  by (simp add: rb_record_len_def BPF_RINGBUF_HDR_SZ_def round_up_def)

lemma length_u32_bytes: "length (u32_bytes bo v) = 4"
  by (cases bo) simp_all

lemma u32_join_split:
  "(ucast (ucast v :: u8) OR push_bit 8 (ucast (ucast (drop_bit 8 v) :: u8))
      OR push_bit 16 (ucast (ucast (drop_bit 16 v) :: u8))
      OR push_bit 24 (ucast (ucast (drop_bit 24 v) :: u8)) :: u32) = (v :: u32)"
proof (rule bit_word_eqI)
  fix n
  assume "n < LENGTH(32)"
  then have n: "n < 32" by simp
  consider "n < 8" | "8 \<le> n" "n < 16" | "16 \<le> n" "n < 24" | "24 \<le> n"
    by linarith
  then show "bit (ucast (ucast v :: u8) OR push_bit 8 (ucast (ucast (drop_bit 8 v) :: u8))
      OR push_bit 16 (ucast (ucast (drop_bit 16 v) :: u8))
      OR push_bit 24 (ucast (ucast (drop_bit 24 v) :: u8)) :: u32) n = bit v n"
    using n by cases (auto simp: bit_simps)
qed

lemma u32_of_bytes_u32_bytes: "u32_of_bytes bo (u32_bytes bo v) = Some v"
  by (cases bo) (simp_all add: u32_join_split)

lemma u32_of_bytes_4: "length bs = 4 \<Longrightarrow> \<exists>v. u32_of_bytes bo bs = Some v"
proof -
  assume "length bs = 4"
  then obtain b0 b1 b2 b3 where "bs = [b0, b1, b2, b3]"
    by (auto simp: length_Suc_conv numeral_eq_Suc)
  then show ?thesis by (cases bo) simp_all
qed

lemma high_half: "unat (ucast (drop_bit 32 (w :: u64)) :: u32) = unat w div 2 ^ 32"
proof -
  have "unat w < 2 ^ 64" using unsigned_less [of w] by simp
  then have "drop_bit 32 (unat w) < 2 ^ 32"
    by (simp add: drop_bit_eq_div less_mult_imp_div_less)
  then have "take_bit 32 (drop_bit 32 (unat w)) = drop_bit 32 (unat w)"
    by (simp only: take_bit_nat_eq_self)
  moreover have "unat (ucast (drop_bit 32 w) :: u32) = take_bit 32 (drop_bit 32 (unat w))"
    by (simp add: unsigned_ucast_eq unat_drop_bit_eq)
  ultimately show ?thesis
    by (simp add: drop_bit_eq_div)
qed

lemma read_event_fields:
  "read_event bo (u32_bytes bo p @ u32_bytes bo r) = Some \<lparr>pid = p, reason = r\<rparr>"
  by (simp add: read_event_def load_bytes_def offsetof_pid offsetof_reason length_u32_bytes
      u32_of_bytes_u32_bytes)

lemma decode_fields:
  "decode bo (u32_bytes bo p @ u32_bytes bo r) = Inr \<lparr>pid = p, reason = r\<rparr>"
  by (simp add: decode_def length_u32_bytes u32_of_bytes_u32_bytes)

lemma decode_length_8: "length bs = 8 \<Longrightarrow> \<exists>ev. decode bo bs = Inr ev"
proof -
  assume len: "length bs = 8"
  obtain p where p: "u32_of_bytes bo (take 4 bs) = Some p"
    using u32_of_bytes_4 [of "take 4 bs" bo] len by auto
  obtain r where r: "u32_of_bytes bo (drop 4 bs) = Some r"
    using u32_of_bytes_4 [of "drop 4 bs" bo] len by auto
  show ?thesis using len p r by (simp add: decode_def)
qed

subsection \<open>One invocation\<close>

lemma reserve_event:
  "bpf_ringbuf_reserve sizeof_event 0 k =
     (if rb_used (events k) + 16 > max_entries (events k) - 1
      then (None, k\<lparr>calls := calls k @ [Call_ringbuf_reserve 8 0 None]\<rparr>)
      else (Some (length (records (events k))),
            k\<lparr>events := (events k)\<lparr>records := records (events k) @
                  [\<lparr>busy = True, data = map (stale k) [0..<8]\<rparr>]\<rparr>,
              calls := calls k @
                  [Call_ringbuf_reserve 8 0 (Some (length (records (events k))))]\<rparr>))"
  by (simp add: bpf_ringbuf_reserve_def sizeof_event_8 rb_record_len_8 Let_def)

lemma reserve_None_iff:
  "fst (bpf_ringbuf_reserve sizeof_event 0 k) = None
     \<longleftrightarrow> rb_used (events k) + 16 > max_entries (events k) - 1"
  by (simp add: reserve_event)

lemma reserve_Some_iff:
  "fst (bpf_ringbuf_reserve sizeof_event 0 k) = Some e
     \<longleftrightarrow> \<not> rb_used (events k) + 16 > max_entries (events k) - 1
         \<and> e = length (records (events k))"
  by (auto simp: reserve_event)

lemma probe_filtered:
  "trace_event_raw_kfree_skb.reason ctx \<le> 1 \<Longrightarrow> trace_tcp_drop ctx k = Some (0, k)"
  by (simp add: trace_tcp_drop_def)

lemma probe_reserve_failed:
  assumes "\<not> trace_event_raw_kfree_skb.reason ctx \<le> 1"
    and "rb_used (events k) + 16 > max_entries (events k) - 1"
  shows "trace_tcp_drop ctx k =
     Some (0, k\<lparr>calls := calls k @ [Call_ringbuf_reserve 8 0 None]\<rparr>)"
  using assms by (simp add: trace_tcp_drop_def reserve_event)

lemma probe_submitted:
  assumes "\<not> trace_event_raw_kfree_skb.reason ctx \<le> 1"
    and "\<not> rb_used (events k) + 16 > max_entries (events k) - 1"
  shows "trace_tcp_drop ctx k =
     Some (0, k\<lparr>events := (events k)\<lparr>records := records (events k) @
                  [\<lparr>busy = False,
                    data = u32_bytes (byte_order k) (ucast (drop_bit 32 (current_pid_tgid k)))
                         @ u32_bytes (byte_order k) (trace_event_raw_kfree_skb.reason ctx)\<rparr>]\<rparr>,
               calls := calls k @
                  [Call_ringbuf_reserve 8 0 (Some (length (records (events k)))),
                   Call_get_current_pid_tgid,
                   Call_ringbuf_submit (length (records (events k))) 0]\<rparr>)"
  using assms
  by (simp add: trace_tcp_drop_def reserve_event bpf_get_current_pid_tgid_def store_u32_def
      bpf_ringbuf_submit_def offsetof_pid offsetof_reason store_bytes_def length_u32_bytes
      Let_def)

subsection \<open>Runs\<close>

lemma rb_used_append:
  "rb_used (rb\<lparr>records := records rb @ [r]\<rparr>) = rb_used rb + rb_record_len (length (data r))"
  by (simp add: rb_used_def)

lemma probe_step:
  "\<exists>k'. trace_tcp_drop ctx k = Some (0, k')
      \<and> byte_order k' = byte_order k
      \<and> max_entries (events k') = max_entries (events k)
      \<and> (records (events k') = records (events k)
         \<or> \<not> trace_event_raw_kfree_skb.reason ctx \<le> 1
           \<and> records (events k') = records (events k) @
               [\<lparr>busy = False,
                 data = u32_bytes (byte_order k) (ucast (drop_bit 32 (current_pid_tgid k)))
                      @ u32_bytes (byte_order k) (trace_event_raw_kfree_skb.reason ctx)\<rparr>])"
proof (cases "trace_event_raw_kfree_skb.reason ctx \<le> 1")
  case True
  then show ?thesis by (simp add: probe_filtered)
next
  case r: False
  show ?thesis
  proof (cases "rb_used (events k) + 16 > max_entries (events k) - 1")
    case True
    then show ?thesis by (simp add: probe_reserve_failed [OF r])
  next
    case False
    then show ?thesis using r by (simp add: probe_submitted [OF r])
  qed
qed

lemma run_records_all:
  assumes "byte_order k = bo"
    and "list_all Q (records (events k))"
    and "\<And>(c :: trace_event_raw_kfree_skb) (t :: u64). \<not> trace_event_raw_kfree_skb.reason c \<le> 1 \<Longrightarrow>
           Q \<lparr>busy = False,
              data = u32_bytes bo (ucast (drop_bit 32 t))
                   @ u32_bytes bo (trace_event_raw_kfree_skb.reason c)\<rparr>"
  shows "\<exists>k'. run_probes invs k = Some k' \<and> byte_order k' = bo
           \<and> list_all Q (records (events k'))"
  using assms(1,2)
proof (induction invs arbitrary: k)
  case Nil
  then show ?case by simp
next
  case (Cons inv invs)
  obtain ctx pt where inv: "inv = (ctx, pt)" by (cases inv)
  let ?k1 = "k\<lparr>current_pid_tgid := pt\<rparr>"
  obtain k2 where step: "trace_tcp_drop ctx ?k1 = Some (0, k2)"
    and bo2: "byte_order k2 = byte_order ?k1"
    and recs: "records (events k2) = records (events ?k1)
         \<or> \<not> trace_event_raw_kfree_skb.reason ctx \<le> 1
           \<and> records (events k2) = records (events ?k1) @
               [\<lparr>busy = False,
                 data = u32_bytes (byte_order ?k1) (ucast (drop_bit 32 (current_pid_tgid ?k1)))
                      @ u32_bytes (byte_order ?k1) (trace_event_raw_kfree_skb.reason ctx)\<rparr>]"
    using probe_step [of ctx ?k1] by blast
  have b: "byte_order k2 = bo" using bo2 Cons.prems(1) by simp
  have q: "list_all Q (records (events k2))"
    using recs Cons.prems assms(3) [of ctx pt] by auto
  from Cons.IH [OF b q] show ?case using inv step by simp
qed

lemma run_exact:
  assumes "rb_used (events k)
             + 16 * length (filter (\<lambda>(c, t). 1 < trace_event_raw_kfree_skb.reason c) invs)
           < max_entries (events k)"
  shows "\<exists>k'. run_probes invs k = Some k' \<and> byte_order k' = byte_order k
           \<and> records (events k') = records (events k) @
               map (\<lambda>(c, t). \<lparr>busy = False,
                               data = u32_bytes (byte_order k) (ucast (drop_bit 32 t))
                                    @ u32_bytes (byte_order k) (trace_event_raw_kfree_skb.reason c)\<rparr>)
                 (filter (\<lambda>(c, t). 1 < trace_event_raw_kfree_skb.reason c) invs)"
  using assms
proof (induction invs arbitrary: k)
  case Nil
  then show ?case by simp
next
  case (Cons inv invs)
  obtain ctx pt where inv: "inv = (ctx, pt)" by (cases inv)
  let ?k1 = "k\<lparr>current_pid_tgid := pt\<rparr>"
  show ?case
  proof (cases "trace_event_raw_kfree_skb.reason ctx \<le> 1")
    case True
    then have step: "trace_tcp_drop ctx ?k1 = Some (0, ?k1)" by (rule probe_filtered)
    from True have f: "\<not> 1 < trace_event_raw_kfree_skb.reason ctx" by (simp add: not_less)
    have "rb_used (events ?k1)
             + 16 * length (filter (\<lambda>(c, t). 1 < trace_event_raw_kfree_skb.reason c) invs)
           < max_entries (events ?k1)"
      using Cons.prems inv f by simp
    from Cons.IH [OF this] show ?thesis using inv step f by simp
  next
    case r: False
    then have t: "1 < trace_event_raw_kfree_skb.reason ctx" by (simp add: not_le)
    have space: "rb_used (events k)
             + 16 * Suc (length (filter (\<lambda>(c, t). 1 < trace_event_raw_kfree_skb.reason c) invs))
           < max_entries (events k)"
      using Cons.prems inv t by simp
    then have s: "\<not> rb_used (events ?k1) + 16 > max_entries (events ?k1) - 1" by simp
    let ?r = "\<lparr>busy = False,
               data = u32_bytes (byte_order k) (ucast (drop_bit 32 pt))
                    @ u32_bytes (byte_order k) (trace_event_raw_kfree_skb.reason ctx)\<rparr>"
    obtain k2 where step: "trace_tcp_drop ctx ?k1 = Some (0, k2)"
      and bo2: "byte_order k2 = byte_order k"
      and ev2: "events k2 = (events k)\<lparr>records := records (events k) @ [?r]\<rparr>"
      using probe_submitted [OF r s] by simp
    have "rb_used (events k2) = rb_used (events k) + 16"
      by (simp add: ev2 rb_used_append length_u32_bytes rb_record_len_8)
    then have "rb_used (events k2)
             + 16 * length (filter (\<lambda>(c, t). 1 < trace_event_raw_kfree_skb.reason c) invs)
           < max_entries (events k2)"
      using space by (simp add: ev2)
    from Cons.IH [OF this] show ?thesis using inv step t bo2 by (simp add: ev2)
  qed
qed

lemma takeWhile_list_all: "list_all P xs \<Longrightarrow> takeWhile P xs = xs"
  by (induction xs) simp_all

lemma consumable_all_submitted:
  "all_submitted k \<Longrightarrow> consumable k = map data (records (events k))"
  by (simp add: consumable_def all_submitted_def takeWhile_list_all)

lemma list_all_takeWhile: "list_all P xs \<Longrightarrow> list_all P (takeWhile Q xs)"
  by (induction xs) simp_all

lemma run_subseq:
  assumes "byte_order k = bo"
  shows "\<exists>k' sel. run_probes invs k = Some k'
           \<and> subseq sel (filter (\<lambda>(c, t). 1 < trace_event_raw_kfree_skb.reason c) invs)
           \<and> records (events k') = records (events k) @
               map (\<lambda>(c, t). \<lparr>busy = False,
                               data = u32_bytes bo (ucast (drop_bit 32 t))
                                    @ u32_bytes bo (trace_event_raw_kfree_skb.reason c)\<rparr>) sel"
  using assms
proof (induction invs arbitrary: k)
  case Nil
  then show ?case by simp
next
  case (Cons inv invs)
  obtain ctx pt where inv: "inv = (ctx, pt)" by (cases inv)
  let ?k1 = "k\<lparr>current_pid_tgid := pt\<rparr>"
  let ?W = "\<lambda>(c, t). 1 < trace_event_raw_kfree_skb.reason c"
  let ?mk = "\<lambda>(c, t). \<lparr>busy = False,
                          data = u32_bytes bo (ucast (drop_bit 32 t))
                               @ u32_bytes bo (trace_event_raw_kfree_skb.reason c)\<rparr>"
  obtain k2 where step: "trace_tcp_drop ctx ?k1 = Some (0, k2)"
    and bo2: "byte_order k2 = byte_order ?k1"
    and recs: "records (events k2) = records (events ?k1)
         \<or> \<not> trace_event_raw_kfree_skb.reason ctx \<le> 1
           \<and> records (events k2) = records (events ?k1) @
               [\<lparr>busy = False,
                 data = u32_bytes (byte_order ?k1) (ucast (drop_bit 32 (current_pid_tgid ?k1)))
                      @ u32_bytes (byte_order ?k1) (trace_event_raw_kfree_skb.reason ctx)\<rparr>]"
    using probe_step [of ctx ?k1] by blast
  have b: "byte_order k2 = bo" using bo2 Cons.prems by simp
  from Cons.IH [OF b] obtain k' sel where run: "run_probes invs k2 = Some k'"
    and sub: "subseq sel (filter ?W invs)"
    and out: "records (events k') = records (events k2) @ map ?mk sel"
    by blast
  from recs show ?case
  proof
    assume same: "records (events k2) = records (events ?k1)"
    have "subseq sel (filter ?W (inv # invs))"
      using sub by (auto simp: inv intro: list_emb_Cons)
    moreover have "records (events k') = records (events k) @ map ?mk sel"
      using out same by simp
    moreover have "run_probes (inv # invs) k = Some k'" using run step inv by simp
    ultimately show ?thesis by blast
  next
    assume new: "\<not> trace_event_raw_kfree_skb.reason ctx \<le> 1
           \<and> records (events k2) = records (events ?k1) @
               [\<lparr>busy = False,
                 data = u32_bytes (byte_order ?k1) (ucast (drop_bit 32 (current_pid_tgid ?k1)))
                      @ u32_bytes (byte_order ?k1) (trace_event_raw_kfree_skb.reason ctx)\<rparr>]"
    then have w: "1 < trace_event_raw_kfree_skb.reason ctx" by (simp add: not_le)
    have "subseq (inv # sel) (filter ?W (inv # invs))"
      using sub w by (simp add: inv)
    moreover have "records (events k') = records (events k) @ map ?mk (inv # sel)"
      using out new Cons.prems by (simp add: inv)
    moreover have "run_probes (inv # invs) k = Some k'" using run step inv by simp
    ultimately show ?thesis by blast
  qed
qed

section \<open>The specified behaviour of the probe\<close>

text \<open>
  C1. When the reason in the context is above 1 and the reservation succeeds, the probe
  returns 0 and submits exactly one event: the ring buffer gains one record, not busy,
  the only submit call made is for that record, the \<open>pid\<close> of the event is the high 32
  bits of the pid/tgid value of the current task, and its \<open>reason\<close> is the reason of
  the context.
\<close>

theorem probe_emits_one_event:
  assumes "1 < trace_event_raw_kfree_skb.reason ctx"
    and "fst (bpf_ringbuf_reserve sizeof_event 0 k) = Some e"
  shows "\<exists>k' d ev.
           trace_tcp_drop ctx k = Some (0, k')
         \<and> records (events k') = records (events k) @ [\<lparr>busy = False, data = d\<rparr>]
         \<and> read_event (byte_order k) d = Some ev
         \<and> unat (pid ev) = unat (current_pid_tgid k) div 2 ^ 32
         \<and> event.reason ev = trace_event_raw_kfree_skb.reason ctx
         \<and> calls k' = calls k @
             [Call_ringbuf_reserve sizeof_event 0 (Some e), Call_get_current_pid_tgid,
              Call_ringbuf_submit e 0]"
proof -
  from assms(1) have r: "\<not> trace_event_raw_kfree_skb.reason ctx \<le> 1" by (simp add: not_le)
  from assms(2) have s: "\<not> rb_used (events k) + 16 > max_entries (events k) - 1"
    and e: "e = length (records (events k))"
    by (simp_all add: reserve_Some_iff)
  show ?thesis
    unfolding probe_submitted [OF r s] e
    by (simp add: read_event_fields high_half sizeof_event_8)
qed

theorem probe_emits_one_event_witness:
  "1 < trace_event_raw_kfree_skb.reason \<lparr>trace_event_raw_kfree_skb.reason = 5\<rparr>
   \<and> fst (bpf_ringbuf_reserve sizeof_event 0
            ((loaded LittleEndian (\<lambda>_. 170))\<lparr>current_pid_tgid := 0x2A00000007\<rparr>)) = Some 0
   \<and> (\<exists>k' d ev.
         trace_tcp_drop \<lparr>trace_event_raw_kfree_skb.reason = 5\<rparr>
           ((loaded LittleEndian (\<lambda>_. 170))\<lparr>current_pid_tgid := 0x2A00000007\<rparr>) = Some (0, k')
       \<and> records (events k') = [\<lparr>busy = False, data = d\<rparr>]
       \<and> read_event LittleEndian d = Some ev
       \<and> unat (pid ev) = 42
       \<and> event.reason ev = 5)"
proof -
  let ?c = "\<lparr>trace_event_raw_kfree_skb.reason = 5\<rparr>"
  let ?k = "(loaded LittleEndian (\<lambda>_. 170))\<lparr>current_pid_tgid := 0x2A00000007\<rparr>"
  have h1: "1 < trace_event_raw_kfree_skb.reason ?c" by simp
  have h2: "fst (bpf_ringbuf_reserve sizeof_event 0 ?k) = Some 0"
    by (simp add: reserve_Some_iff loaded_def events_map_def events_max_entries_def rb_used_def)
  from probe_emits_one_event [OF h1 h2] obtain k' d ev where
    "trace_tcp_drop ?c ?k = Some (0, k')"
    "records (events k') = records (events ?k) @ [\<lparr>busy = False, data = d\<rparr>]"
    "read_event (byte_order ?k) d = Some ev"
    "unat (pid ev) = unat (current_pid_tgid ?k) div 2 ^ 32"
    "event.reason ev = trace_event_raw_kfree_skb.reason ?c"
    by blast
  then have "trace_tcp_drop ?c ?k = Some (0, k')
       \<and> records (events k') = [\<lparr>busy = False, data = d\<rparr>]
       \<and> read_event LittleEndian d = Some ev
       \<and> unat (pid ev) = 42
       \<and> event.reason ev = 5"
    by (simp add: loaded_def events_map_def)
  then show ?thesis using h1 h2 by blast
qed

text \<open>
  C2. When the reason in the context is 0 or 1, the probe returns 0 at once: the kernel
  state is the same, so no record is added and no helper is called. Hence, if every
  record of the ring buffer holds an event with a reason above 1, this is still so after
  any run of the probe, and so it is for the records the consumer can read.
\<close>

theorem probe_filters_benign_reasons:
  "(trace_event_raw_kfree_skb.reason ctx \<le> 1 \<longrightarrow> trace_tcp_drop ctx k = Some (0, k))
   \<and> (list_all (reports_drop (byte_order k)) (map data (records (events k))) \<longrightarrow>
        (\<exists>k'. run_probes invs k = Some k'
           \<and> list_all (reports_drop (byte_order k)) (map data (records (events k')))
           \<and> list_all (reports_drop (byte_order k)) (consumable k')))"
proof (intro conjI impI)
  assume "trace_event_raw_kfree_skb.reason ctx \<le> 1"
  then show "trace_tcp_drop ctx k = Some (0, k)" by (rule probe_filtered)
next
  let ?Q = "\<lambda>r. reports_drop (byte_order k) (data r)"
  assume "list_all (reports_drop (byte_order k)) (map data (records (events k)))"
  then have q: "list_all ?Q (records (events k))" by (simp add: list_all_iff)
  have new: "?Q \<lparr>busy = False,
                 data = u32_bytes (byte_order k) (ucast (drop_bit 32 t))
                      @ u32_bytes (byte_order k) (trace_event_raw_kfree_skb.reason c)\<rparr>"
    if "\<not> trace_event_raw_kfree_skb.reason c \<le> 1" for c :: trace_event_raw_kfree_skb and t :: u64
    using that by (simp add: reports_drop_def read_event_fields not_le)
  obtain k' where run: "run_probes invs k = Some k'"
    and all: "list_all ?Q (records (events k'))"
    using run_records_all [of k "byte_order k" ?Q invs, OF refl q new] by blast
  from all have a: "list_all (reports_drop (byte_order k)) (map data (records (events k')))"
    by (simp add: list_all_iff)
  from all have "list_all ?Q (takeWhile (\<lambda>r. \<not> busy r) (records (events k')))"
    by (rule list_all_takeWhile)
  then have b: "list_all (reports_drop (byte_order k)) (consumable k')"
    by (simp add: consumable_def list_all_iff)
  from run a b
  show "\<exists>k'. run_probes invs k = Some k'
           \<and> list_all (reports_drop (byte_order k)) (map data (records (events k')))
           \<and> list_all (reports_drop (byte_order k)) (consumable k')"
    by blast
qed

theorem probe_filters_benign_reasons_witness:
  "trace_event_raw_kfree_skb.reason \<lparr>trace_event_raw_kfree_skb.reason = 1\<rparr> \<le> 1
   \<and> trace_tcp_drop \<lparr>trace_event_raw_kfree_skb.reason = 1\<rparr> (loaded LittleEndian (\<lambda>_. 0))
       = Some (0, loaded LittleEndian (\<lambda>_. 0))
   \<and> list_all (reports_drop LittleEndian) (map data (records (events (loaded LittleEndian (\<lambda>_. 0)))))
   \<and> (\<exists>k'. run_probes [(\<lparr>trace_event_raw_kfree_skb.reason = 1\<rparr>, 7),
                         (\<lparr>trace_event_raw_kfree_skb.reason = 3\<rparr>, 8)]
              (loaded LittleEndian (\<lambda>_. 0)) = Some k'
          \<and> list_all (reports_drop LittleEndian) (map data (records (events k')))
          \<and> list_all (reports_drop LittleEndian) (consumable k'))"
proof -
  let ?c = "\<lparr>trace_event_raw_kfree_skb.reason = 1\<rparr>"
  let ?k = "loaded LittleEndian (\<lambda>_. 0)"
  let ?invs = "[(\<lparr>trace_event_raw_kfree_skb.reason = 1\<rparr>, 7 :: u64),
                (\<lparr>trace_event_raw_kfree_skb.reason = 3\<rparr>, 8)]"
  have h1: "trace_event_raw_kfree_skb.reason ?c \<le> 1" by simp
  have h2: "list_all (reports_drop (byte_order ?k)) (map data (records (events ?k)))"
    by (simp add: loaded_def events_map_def)
  have bo: "byte_order ?k = LittleEndian" by (simp add: loaded_def)
  from probe_filters_benign_reasons [of ?c ?k ?invs] h1 h2
  have "trace_tcp_drop ?c ?k = Some (0, ?k)
      \<and> (\<exists>k'. run_probes ?invs ?k = Some k'
           \<and> list_all (reports_drop (byte_order ?k)) (map data (records (events k')))
           \<and> list_all (reports_drop (byte_order ?k)) (consumable k'))"
    by blast
  then show ?thesis using h1 h2 unfolding bo by blast
qed

text \<open>
  C3. When the reason is above 1 and the reservation fails, the probe returns 0 and
  leaves the kernel state as it was, but for the log, which gains that one failed
  reservation: no event, no submit, no second attempt.
\<close>

theorem probe_drops_silently:
  assumes "1 < trace_event_raw_kfree_skb.reason ctx"
    and "fst (bpf_ringbuf_reserve sizeof_event 0 k) = None"
  shows "trace_tcp_drop ctx k =
           Some (0, k\<lparr>calls := calls k @ [Call_ringbuf_reserve sizeof_event 0 None]\<rparr>)"
proof -
  from assms(1) have r: "\<not> trace_event_raw_kfree_skb.reason ctx \<le> 1" by (simp add: not_le)
  from assms(2) have s: "rb_used (events k) + 16 > max_entries (events k) - 1"
    by (simp add: reserve_None_iff)
  show ?thesis
    by (simp add: probe_reserve_failed [OF r s] sizeof_event_8)
qed

theorem probe_drops_silently_witness:
  "1 < trace_event_raw_kfree_skb.reason \<lparr>trace_event_raw_kfree_skb.reason = 7\<rparr>
   \<and> fst (bpf_ringbuf_reserve sizeof_event 0
            ((loaded LittleEndian (\<lambda>_. 0))
               \<lparr>events := \<lparr>max_entries = 65536,
                            records = replicate 4095 \<lparr>busy = False, data = replicate 8 0\<rparr>\<rparr>\<rparr>)) = None
   \<and> trace_tcp_drop \<lparr>trace_event_raw_kfree_skb.reason = 7\<rparr>
        ((loaded LittleEndian (\<lambda>_. 0))
           \<lparr>events := \<lparr>max_entries = 65536,
                        records = replicate 4095 \<lparr>busy = False, data = replicate 8 0\<rparr>\<rparr>\<rparr>)
     = Some (0, (loaded LittleEndian (\<lambda>_. 0))
           \<lparr>events := \<lparr>max_entries = 65536,
                        records = replicate 4095 \<lparr>busy = False, data = replicate 8 0\<rparr>\<rparr>,
             calls := [Call_ringbuf_reserve 8 0 None]\<rparr>)"
proof -
  let ?c = "\<lparr>trace_event_raw_kfree_skb.reason = 7\<rparr>"
  let ?k = "(loaded LittleEndian (\<lambda>_. 0))
               \<lparr>events := \<lparr>max_entries = 65536,
                            records = replicate 4095 \<lparr>busy = False, data = replicate 8 0\<rparr>\<rparr>\<rparr>"
  have h1: "1 < trace_event_raw_kfree_skb.reason ?c" by simp
  have h2: "fst (bpf_ringbuf_reserve sizeof_event 0 ?k) = None"
    by (simp add: reserve_None_iff rb_used_def rb_record_len_8 sum_list_replicate)
  show ?thesis
    using h1 h2 probe_drops_silently [OF h1 h2]
    by (simp add: loaded_def sizeof_event_8)
qed

text \<open>
  C4. Whatever the context and the kernel state, the probe returns 0: it neither faults
  nor returns anything else, on the filtered path, on a failed reservation and after a
  submit alike.
\<close>

theorem probe_returns_0: "\<exists>k'. trace_tcp_drop ctx k = Some (0, k')"
  using probe_step [of ctx k] by blast

theorem probe_returns_0_witness:
  "\<exists>k'. trace_tcp_drop \<lparr>trace_event_raw_kfree_skb.reason = 0\<rparr> (loaded BigEndian (\<lambda>_. 0))
           = Some (0, k')"
  using probe_returns_0 [of "\<lparr>trace_event_raw_kfree_skb.reason = 0\<rparr>" "loaded BigEndian (\<lambda>_. 0)"]
  by simp

text \<open>
  C5. Started on the empty map with the reasons 0, 2, 5, 1, 9, the probe leaves for the
  consumer exactly the events with the reasons 2, 5, 9, in that order, each with the pid
  of its own invocation. In general, from a state with no busy record and with room for
  every event of the run, the consumer can read, after what it could read before, the
  events of the invocations with a reason above 1, in the order of the invocations.
  Without the room, what it can read more is still a subsequence of those events, in the
  order of the invocations.
\<close>

theorem collector_sees_submission_order:
  "(\<exists>k'. run_probes [(\<lparr>trace_event_raw_kfree_skb.reason = 0\<rparr>, t0),
                      (\<lparr>trace_event_raw_kfree_skb.reason = 2\<rparr>, t1),
                      (\<lparr>trace_event_raw_kfree_skb.reason = 5\<rparr>, t2),
                      (\<lparr>trace_event_raw_kfree_skb.reason = 1\<rparr>, t3),
                      (\<lparr>trace_event_raw_kfree_skb.reason = 9\<rparr>, t4)] (loaded bo g) = Some k'
       \<and> map (read_event bo) (consumable k') =
           [Some \<lparr>pid = ucast (drop_bit 32 t1), reason = 2\<rparr>,
            Some \<lparr>pid = ucast (drop_bit 32 t2), reason = 5\<rparr>,
            Some \<lparr>pid = ucast (drop_bit 32 t4), reason = 9\<rparr>])
   \<and> (all_submitted k
       \<and> rb_used (events k)
           + rb_record_len sizeof_event
             * length (filter (\<lambda>(c, t). 1 < trace_event_raw_kfree_skb.reason c) invs)
         < max_entries (events k) \<longrightarrow>
       (\<exists>k'. run_probes invs k = Some k'
          \<and> map (read_event (byte_order k)) (consumable k') =
              map (read_event (byte_order k)) (consumable k) @
              map (\<lambda>(c, t). Some \<lparr>pid = ucast (drop_bit 32 t),
                                   reason = trace_event_raw_kfree_skb.reason c\<rparr>)
                (filter (\<lambda>(c, t). 1 < trace_event_raw_kfree_skb.reason c) invs)))
   \<and> (all_submitted k \<longrightarrow>
       (\<exists>k' sel. run_probes invs k = Some k'
          \<and> subseq sel (filter (\<lambda>(c, t). 1 < trace_event_raw_kfree_skb.reason c) invs)
          \<and> map (read_event (byte_order k)) (consumable k') =
              map (read_event (byte_order k)) (consumable k) @
              map (\<lambda>(c, t). Some \<lparr>pid = ucast (drop_bit 32 t),
                                   reason = trace_event_raw_kfree_skb.reason c\<rparr>) sel))"
proof -
  have general:
    "\<exists>k'. run_probes invs k = Some k'
          \<and> map (read_event (byte_order k)) (consumable k') =
              map (read_event (byte_order k)) (consumable k) @
              map (\<lambda>(c, t). Some \<lparr>pid = ucast (drop_bit 32 t),
                                   reason = trace_event_raw_kfree_skb.reason c\<rparr>)
                (filter (\<lambda>(c, t). 1 < trace_event_raw_kfree_skb.reason c) invs)"
    if sub: "all_submitted k"
      and room: "rb_used (events k)
           + 16 * length (filter (\<lambda>(c, t). 1 < trace_event_raw_kfree_skb.reason c) invs)
         < max_entries (events k)"
    for k invs
  proof -
    let ?new = "map (\<lambda>(c, t). \<lparr>busy = False,
                               data = u32_bytes (byte_order k) (ucast (drop_bit 32 t))
                                    @ u32_bytes (byte_order k) (trace_event_raw_kfree_skb.reason c)\<rparr>)
                 (filter (\<lambda>(c, t). 1 < trace_event_raw_kfree_skb.reason c) invs)"
    obtain k' where run: "run_probes invs k = Some k'"
      and recs: "records (events k') = records (events k) @ ?new"
      using run_exact [OF room] by blast
    have "all_submitted k'"
      using sub by (auto simp: all_submitted_def recs list_all_iff split_beta)
    then have "consumable k' = map data (records (events k'))"
      by (rule consumable_all_submitted)
    then have "map (read_event (byte_order k)) (consumable k') =
        map (read_event (byte_order k)) (consumable k) @
        map (read_event (byte_order k)) (map data ?new)"
      by (simp add: recs consumable_all_submitted [OF sub])
    moreover have "map (read_event (byte_order k)) (map data ?new) =
        map (\<lambda>(c, t). Some \<lparr>pid = ucast (drop_bit 32 t),
                             reason = trace_event_raw_kfree_skb.reason c\<rparr>)
          (filter (\<lambda>(c, t). 1 < trace_event_raw_kfree_skb.reason c) invs)"
      by (simp add: split_beta read_event_fields)
    ultimately show ?thesis using run by simp
  qed
  have empty: "all_submitted (loaded bo g)" "consumable (loaded bo g) = []"
    "rb_used (events (loaded bo g)) = 0" "max_entries (events (loaded bo g)) = 65536"
    "byte_order (loaded bo g) = bo"
    by (simp_all add: loaded_def events_map_def all_submitted_def consumable_def rb_used_def
        events_max_entries_def)
  have scenario: "\<exists>k'. run_probes [(\<lparr>trace_event_raw_kfree_skb.reason = 0\<rparr>, t0),
                      (\<lparr>trace_event_raw_kfree_skb.reason = 2\<rparr>, t1),
                      (\<lparr>trace_event_raw_kfree_skb.reason = 5\<rparr>, t2),
                      (\<lparr>trace_event_raw_kfree_skb.reason = 1\<rparr>, t3),
                      (\<lparr>trace_event_raw_kfree_skb.reason = 9\<rparr>, t4)] (loaded bo g) = Some k'
       \<and> map (read_event bo) (consumable k') =
           [Some \<lparr>pid = ucast (drop_bit 32 t1), reason = 2\<rparr>,
            Some \<lparr>pid = ucast (drop_bit 32 t2), reason = 5\<rparr>,
            Some \<lparr>pid = ucast (drop_bit 32 t4), reason = 9\<rparr>]"
    using general [of "loaded bo g" "[(\<lparr>trace_event_raw_kfree_skb.reason = 0\<rparr>, t0),
                      (\<lparr>trace_event_raw_kfree_skb.reason = 2\<rparr>, t1),
                      (\<lparr>trace_event_raw_kfree_skb.reason = 5\<rparr>, t2),
                      (\<lparr>trace_event_raw_kfree_skb.reason = 1\<rparr>, t3),
                      (\<lparr>trace_event_raw_kfree_skb.reason = 9\<rparr>, t4)]"]
    by (simp add: empty)
  have ordered:
    "\<exists>k' sel. run_probes invs k = Some k'
          \<and> subseq sel (filter (\<lambda>(c, t). 1 < trace_event_raw_kfree_skb.reason c) invs)
          \<and> map (read_event (byte_order k)) (consumable k') =
              map (read_event (byte_order k)) (consumable k) @
              map (\<lambda>(c, t). Some \<lparr>pid = ucast (drop_bit 32 t),
                                   reason = trace_event_raw_kfree_skb.reason c\<rparr>) sel"
    if sub: "all_submitted k"
  proof -
    let ?mk = "\<lambda>(c, t). \<lparr>busy = False,
                            data = u32_bytes (byte_order k) (ucast (drop_bit 32 t))
                                 @ u32_bytes (byte_order k) (trace_event_raw_kfree_skb.reason c)\<rparr>"
    obtain k' sel where run: "run_probes invs k = Some k'"
      and sel: "subseq sel (filter (\<lambda>(c, t). 1 < trace_event_raw_kfree_skb.reason c) invs)"
      and recs: "records (events k') = records (events k) @ map ?mk sel"
      using run_subseq [of k "byte_order k" invs, OF refl] by blast
    have "all_submitted k'"
      using sub by (auto simp: all_submitted_def recs list_all_iff split_beta)
    then have "consumable k' = map data (records (events k'))"
      by (rule consumable_all_submitted)
    then have "map (read_event (byte_order k)) (consumable k') =
        map (read_event (byte_order k)) (consumable k) @
        map (read_event (byte_order k)) (map data (map ?mk sel))"
      by (simp add: recs consumable_all_submitted [OF sub])
    moreover have "map (read_event (byte_order k)) (map data (map ?mk sel)) =
        map (\<lambda>(c, t). Some \<lparr>pid = ucast (drop_bit 32 t),
                             reason = trace_event_raw_kfree_skb.reason c\<rparr>) sel"
      by (simp add: split_beta read_event_fields)
    ultimately show ?thesis using run sel by auto
  qed
  show ?thesis
    using scenario general [of k invs] ordered
    by (simp add: sizeof_event_8 rb_record_len_8)
qed

theorem collector_sees_submission_order_witness:
  "(\<exists>k'. run_probes [(\<lparr>trace_event_raw_kfree_skb.reason = 0\<rparr>, 0x100000000),
                      (\<lparr>trace_event_raw_kfree_skb.reason = 2\<rparr>, 0x200000007),
                      (\<lparr>trace_event_raw_kfree_skb.reason = 5\<rparr>, 0x300000000),
                      (\<lparr>trace_event_raw_kfree_skb.reason = 1\<rparr>, 0x400000000),
                      (\<lparr>trace_event_raw_kfree_skb.reason = 9\<rparr>, 0x500001234)]
             (loaded LittleEndian (\<lambda>_. 0)) = Some k'
       \<and> map (read_event LittleEndian) (consumable k') =
           [Some \<lparr>pid = 2, reason = 2\<rparr>, Some \<lparr>pid = 3, reason = 5\<rparr>,
            Some \<lparr>pid = 5, reason = 9\<rparr>])
   \<and> all_submitted (loaded BigEndian (\<lambda>_. 255))
   \<and> rb_used (events (loaded BigEndian (\<lambda>_. 255)))
       + rb_record_len sizeof_event
         * length (filter (\<lambda>(c, t). 1 < trace_event_raw_kfree_skb.reason c)
             [(\<lparr>trace_event_raw_kfree_skb.reason = 7\<rparr>, 0x600000000 :: u64),
              (\<lparr>trace_event_raw_kfree_skb.reason = 1\<rparr>, 0x700000000),
              (\<lparr>trace_event_raw_kfree_skb.reason = 4\<rparr>, 0x800000000)])
       < max_entries (events (loaded BigEndian (\<lambda>_. 255)))
   \<and> (\<exists>k'. run_probes [(\<lparr>trace_event_raw_kfree_skb.reason = 7\<rparr>, 0x600000000),
                        (\<lparr>trace_event_raw_kfree_skb.reason = 1\<rparr>, 0x700000000),
                        (\<lparr>trace_event_raw_kfree_skb.reason = 4\<rparr>, 0x800000000)]
               (loaded BigEndian (\<lambda>_. 255)) = Some k'
         \<and> map (read_event BigEndian) (consumable k') =
             [Some \<lparr>pid = 6, reason = 7\<rparr>, Some \<lparr>pid = 8, reason = 4\<rparr>])"
proof -
  let ?k = "loaded BigEndian (\<lambda>_. 255)"
  let ?invs = "[(\<lparr>trace_event_raw_kfree_skb.reason = 7\<rparr>, 0x600000000 :: u64),
                (\<lparr>trace_event_raw_kfree_skb.reason = 1\<rparr>, 0x700000000),
                (\<lparr>trace_event_raw_kfree_skb.reason = 4\<rparr>, 0x800000000)]"
  have h1: "all_submitted ?k"
    by (simp add: all_submitted_def loaded_def events_map_def)
  have h2: "rb_used (events ?k)
       + rb_record_len sizeof_event
         * length (filter (\<lambda>(c, t). 1 < trace_event_raw_kfree_skb.reason c) ?invs)
       < max_entries (events ?k)"
    by (simp add: loaded_def events_map_def events_max_entries_def rb_used_def sizeof_event_8
        rb_record_len_8)
  have e: "consumable ?k = []" "byte_order ?k = BigEndian"
    by (simp_all add: consumable_def loaded_def events_map_def)
  show ?thesis
    using h1 h2
      collector_sees_submission_order [of "0x100000000" "0x200000007" "0x300000000"
        "0x400000000" "0x500001234" LittleEndian "\<lambda>_. 0" ?k ?invs]
    by (simp add: e)
qed

text \<open>
  C6. \<^verbatim>\<open>struct event\<close> is two unsigned 32-bit members, \<open>pid\<close> at offset 0 and
  \<open>reason\<close> at offset 4; its size is 8 bytes and it has no padding. Storing the two
  members into an object of that size leaves exactly the bytes of \<open>pid\<close> followed by
  the bytes of \<open>reason\<close>, each in the byte order of the machine, and reading the
  struct back gives the two values.
\<close>

theorem event_layout:
  "map snd struct_event = [U32, U32]
   \<and> struct_offsets 0 struct_event = [(''pid'', 0), (''reason'', 4)]
   \<and> sizeof_event = 8
   \<and> struct_padding struct_event = 0
   \<and> (length mem = sizeof_event \<longrightarrow>
        Option.bind (store_bytes (offsetof struct_event ''pid'') (u32_bytes bo p) mem)
          (store_bytes (offsetof struct_event ''reason'') (u32_bytes bo r))
        = Some (u32_bytes bo p @ u32_bytes bo r))
   \<and> length (u32_bytes bo p @ u32_bytes bo r) = 8
   \<and> read_event bo (u32_bytes bo p @ u32_bytes bo r) = Some \<lparr>pid = p, reason = r\<rparr>"
proof -
  have "struct_offsets 0 struct_event = [(''pid'', 0), (''reason'', 4)]"
    by (simp add: struct_event_def ctype_align_def round_up_def)
  moreover have "struct_padding struct_event = 0"
    using sizeof_event_8 by (simp add: struct_padding_def sizeof_event_def struct_event_def)
  moreover have "map snd struct_event = [U32, U32]"
    by (simp add: struct_event_def)
  ultimately show ?thesis
    by (simp add: sizeof_event_8 offsetof_pid offsetof_reason store_bytes_def
        length_u32_bytes read_event_fields)
qed

theorem event_layout_witness:
  "length [170, 170, 170, 170, 170, 170, 170, 170 :: u8] = sizeof_event
   \<and> Option.bind (store_bytes (offsetof struct_event ''pid'') (u32_bytes LittleEndian 0x01020304)
                     [170, 170, 170, 170, 170, 170, 170, 170])
        (store_bytes (offsetof struct_event ''reason'') (u32_bytes LittleEndian 5))
     = Some [4, 3, 2, 1, 5, 0, 0, 0]
   \<and> Option.bind (store_bytes (offsetof struct_event ''pid'') (u32_bytes BigEndian 0x01020304)
                     [170, 170, 170, 170, 170, 170, 170, 170])
        (store_bytes (offsetof struct_event ''reason'') (u32_bytes BigEndian 5))
     = Some [1, 2, 3, 4, 0, 0, 0, 5]"
proof -
  let ?mem = "[170, 170, 170, 170, 170, 170, 170, 170 :: u8]"
  have h: "length ?mem = sizeof_event"
    by (simp add: sizeof_event_8)
  have le: "Option.bind (store_bytes (offsetof struct_event ''pid'') (u32_bytes LittleEndian 0x01020304) ?mem)
        (store_bytes (offsetof struct_event ''reason'') (u32_bytes LittleEndian 5))
     = Some (u32_bytes LittleEndian 0x01020304 @ u32_bytes LittleEndian 5)"
    using event_layout [of ?mem LittleEndian "0x01020304" 5] h by blast
  have be: "Option.bind (store_bytes (offsetof struct_event ''pid'') (u32_bytes BigEndian 0x01020304) ?mem)
        (store_bytes (offsetof struct_event ''reason'') (u32_bytes BigEndian 5))
     = Some (u32_bytes BigEndian 0x01020304 @ u32_bytes BigEndian 5)"
    using event_layout [of ?mem BigEndian "0x01020304" 5] h by blast
  have "u32_bytes LittleEndian 0x01020304 @ u32_bytes LittleEndian 5 = [4, 3, 2, 1, 5, 0, 0, 0]"
    "u32_bytes BigEndian 0x01020304 @ u32_bytes BigEndian 5 = [1, 2, 3, 4, 0, 0, 0, 5]"
    by simp_all
  with h le be show ?thesis by (simp only: simp_thms)
qed

text \<open>
  C7. Decoding the encoding of an event gives the event back, whatever its two values
  and the byte order; and decoding any input whose length is not 8 bytes fails with
  \<open>MalformedRecord\<close>.
\<close>

theorem codec_round_trip:
  "decode bo (encode bo ev) = Inr ev
   \<and> (length bs \<noteq> 8 \<longrightarrow> decode bo bs = Inl MalformedRecord)"
  by (cases ev) (simp add: encode_def decode_fields, simp add: decode_def)

theorem codec_round_trip_witness:
  "decode BigEndian (encode BigEndian \<lparr>pid = 42, reason = 5\<rparr>) = Inr \<lparr>pid = 42, reason = 5\<rparr>
   \<and> length [1, 2, 3, 4, 5, 6, 7 :: u8] \<noteq> 8
   \<and> decode BigEndian [1, 2, 3, 4, 5, 6, 7] = Inl MalformedRecord"
  using codec_round_trip [of BigEndian "\<lparr>pid = 42, reason = 5\<rparr>" "[1, 2, 3, 4, 5, 6, 7]"]
  by simp

text \<open>
  C8. The map \<open>events\<close> is declared with \<open>max_entries\<close> = \<open>1 << 16\<close>: 65536 bytes,
  a power of two.
\<close>

theorem events_capacity:
  "max_entries events_map = 65536
   \<and> events_max_entries = 2 ^ 16
   \<and> is_power_of_2 (max_entries events_map)"
proof -
  have "events_max_entries = 65536" by (simp add: events_max_entries_def)
  moreover have "is_power_of_2 65536" by (simp add: is_power_of_2_def)
  ultimately show ?thesis by (simp add: events_map_def)
qed

text \<open>
  C9. When the reason is above 1 and the reservation succeeds with the record \<open>e\<close>,
  the helper calls of the invocation are the reservation, the read of the pid/tgid
  value and one submit of \<open>e\<close>, with no discard, and \<open>e\<close> is not busy when the probe
  returns. On every path the busy records after the call are those before it, so no
  reservation outlives the invocation; and from a state with no busy record, a run of
  the probe leaves none.
\<close>

theorem reservation_is_submitted_once:
  "(1 < trace_event_raw_kfree_skb.reason ctx
      \<and> fst (bpf_ringbuf_reserve sizeof_event 0 k) = Some e \<longrightarrow>
      (\<exists>k'. trace_tcp_drop ctx k = Some (0, k')
         \<and> calls k' = calls k @
             [Call_ringbuf_reserve sizeof_event 0 (Some e), Call_get_current_pid_tgid,
              Call_ringbuf_submit e 0]
         \<and> e < length (records (events k'))
         \<and> \<not> busy (records (events k') ! e)))
   \<and> (\<exists>k'. trace_tcp_drop ctx k = Some (0, k')
         \<and> filter busy (records (events k')) = filter busy (records (events k)))
   \<and> (all_submitted k \<longrightarrow> (\<exists>k'. run_probes invs k = Some k' \<and> all_submitted k'))"
proof (intro conjI impI)
  assume a: "1 < trace_event_raw_kfree_skb.reason ctx
      \<and> fst (bpf_ringbuf_reserve sizeof_event 0 k) = Some e"
  then have r: "\<not> trace_event_raw_kfree_skb.reason ctx \<le> 1" by (simp add: not_le)
  from a have s: "\<not> rb_used (events k) + 16 > max_entries (events k) - 1"
    and e: "e = length (records (events k))"
    by (simp_all add: reserve_Some_iff)
  show "\<exists>k'. trace_tcp_drop ctx k = Some (0, k')
         \<and> calls k' = calls k @
             [Call_ringbuf_reserve sizeof_event 0 (Some e), Call_get_current_pid_tgid,
              Call_ringbuf_submit e 0]
         \<and> e < length (records (events k'))
         \<and> \<not> busy (records (events k') ! e)"
    unfolding probe_submitted [OF r s] e by (simp add: sizeof_event_8)
next
  show "\<exists>k'. trace_tcp_drop ctx k = Some (0, k')
         \<and> filter busy (records (events k')) = filter busy (records (events k))"
    using probe_step [of ctx k] by auto
next
  assume "all_submitted k"
  then have q: "list_all (\<lambda>r. \<not> busy r) (records (events k))"
    by (simp add: all_submitted_def)
  show "\<exists>k'. run_probes invs k = Some k' \<and> all_submitted k'"
    using run_records_all [of k "byte_order k" "\<lambda>r. \<not> busy r" invs, OF refl q]
    by (auto simp: all_submitted_def)
qed

theorem reservation_is_submitted_once_witness:
  "1 < trace_event_raw_kfree_skb.reason \<lparr>trace_event_raw_kfree_skb.reason = 2\<rparr>
   \<and> fst (bpf_ringbuf_reserve sizeof_event 0 (loaded LittleEndian (\<lambda>_. 0))) = Some 0
   \<and> (\<exists>k'. trace_tcp_drop \<lparr>trace_event_raw_kfree_skb.reason = 2\<rparr>
              (loaded LittleEndian (\<lambda>_. 0)) = Some (0, k')
         \<and> calls k' = [Call_ringbuf_reserve 8 0 (Some 0), Call_get_current_pid_tgid,
                        Call_ringbuf_submit 0 0]
         \<and> 0 < length (records (events k'))
         \<and> \<not> busy (records (events k') ! 0))
   \<and> all_submitted (loaded LittleEndian (\<lambda>_. 0))
   \<and> (\<exists>k'. run_probes [(\<lparr>trace_event_raw_kfree_skb.reason = 2\<rparr>, 9)]
              (loaded LittleEndian (\<lambda>_. 0)) = Some k' \<and> all_submitted k')"
proof -
  let ?c = "\<lparr>trace_event_raw_kfree_skb.reason = 2\<rparr>"
  let ?k = "loaded LittleEndian (\<lambda>_. 0)"
  have h1: "1 < trace_event_raw_kfree_skb.reason ?c" by simp
  have h2: "fst (bpf_ringbuf_reserve sizeof_event 0 ?k) = Some 0"
    by (simp add: reserve_Some_iff loaded_def events_map_def events_max_entries_def rb_used_def)
  have h3: "all_submitted ?k"
    by (simp add: all_submitted_def loaded_def events_map_def)
  have c: "calls ?k = []" by (simp add: loaded_def)
  show ?thesis
    using h1 h2 h3
      reservation_is_submitted_once [of ?c ?k 0 "[(\<lparr>trace_event_raw_kfree_skb.reason = 2\<rparr>, 9)]"]
    by (simp add: c sizeof_event_8)
qed

text \<open>
  C10. \<^verbatim>\<open>sizeof(struct event)\<close> is 8, and the probe reserves that size: if every
  record of the ring buffer has 8 bytes of data, then so has every record after any run
  of the probe, and the consumer's \<open>decode\<close> fails with \<open>MalformedRecord\<close> on none
  of the records it can read.
\<close>

theorem records_have_event_size:
  "sizeof_event = 8
   \<and> (list_all (\<lambda>r. length (data r) = sizeof_event) (records (events k)) \<longrightarrow>
        (\<exists>k'. run_probes invs k = Some k'
           \<and> list_all (\<lambda>r. length (data r) = 8) (records (events k'))
           \<and> list_all (\<lambda>d. decode (byte_order k) d \<noteq> Inl MalformedRecord) (consumable k')))"
proof (intro conjI impI)
  show "sizeof_event = 8" by (rule sizeof_event_8)
next
  let ?Q = "\<lambda>r. length (data r) = 8"
  assume "list_all (\<lambda>r. length (data r) = sizeof_event) (records (events k))"
  then have q: "list_all ?Q (records (events k))" by (simp add: sizeof_event_8)
  obtain k' where run: "run_probes invs k = Some k'"
    and all: "list_all ?Q (records (events k'))"
    using run_records_all [of k "byte_order k" ?Q invs, OF refl q]
    by (auto simp: length_u32_bytes)
  from all have "list_all ?Q (takeWhile (\<lambda>r. \<not> busy r) (records (events k')))"
    by (rule list_all_takeWhile)
  then have "list_all (\<lambda>d. length d = 8) (consumable k')"
    by (simp add: consumable_def list_all_iff)
  then have "list_all (\<lambda>d. decode (byte_order k) d \<noteq> Inl MalformedRecord) (consumable k')"
    using decode_length_8 [of _ "byte_order k"] by (fastforce simp: list_all_iff)
  with run all
  show "\<exists>k'. run_probes invs k = Some k'
           \<and> list_all (\<lambda>r. length (data r) = 8) (records (events k'))
           \<and> list_all (\<lambda>d. decode (byte_order k) d \<noteq> Inl MalformedRecord) (consumable k')"
    by blast
qed

theorem records_have_event_size_witness:
  "list_all (\<lambda>r. length (data r) = sizeof_event) (records (events (loaded LittleEndian (\<lambda>_. 0))))
   \<and> (\<exists>k'. run_probes [(\<lparr>trace_event_raw_kfree_skb.reason = 3\<rparr>, 0x100000000),
                        (\<lparr>trace_event_raw_kfree_skb.reason = 0\<rparr>, 0x200000000),
                        (\<lparr>trace_event_raw_kfree_skb.reason = 6\<rparr>, 0x300000000)]
              (loaded LittleEndian (\<lambda>_. 0)) = Some k'
         \<and> list_all (\<lambda>r. length (data r) = 8) (records (events k'))
         \<and> list_all (\<lambda>d. decode LittleEndian d \<noteq> Inl MalformedRecord) (consumable k'))"
proof -
  let ?k = "loaded LittleEndian (\<lambda>_. 0)"
  have h: "list_all (\<lambda>r. length (data r) = sizeof_event) (records (events ?k))"
    by (simp add: loaded_def events_map_def)
  have b: "byte_order ?k = LittleEndian" by (simp add: loaded_def)
  from records_have_event_size [of ?k "[(\<lparr>trace_event_raw_kfree_skb.reason = 3\<rparr>, 0x100000000),
                        (\<lparr>trace_event_raw_kfree_skb.reason = 0\<rparr>, 0x200000000),
                        (\<lparr>trace_event_raw_kfree_skb.reason = 6\<rparr>, 0x300000000)]"] h
  have "\<exists>k'. run_probes [(\<lparr>trace_event_raw_kfree_skb.reason = 3\<rparr>, 0x100000000),
                        (\<lparr>trace_event_raw_kfree_skb.reason = 0\<rparr>, 0x200000000),
                        (\<lparr>trace_event_raw_kfree_skb.reason = 6\<rparr>, 0x300000000)] ?k = Some k'
         \<and> list_all (\<lambda>r. length (data r) = 8) (records (events k'))
         \<and> list_all (\<lambda>d. decode (byte_order ?k) d \<noteq> Inl MalformedRecord) (consumable k')"
    by blast
  then show ?thesis using h unfolding b by blast
qed

end
